theory Spec2Isabelle
  imports Main "HOL-Library.Char_ord" "HOL-Library.List_Lexorder"
begin

section \<open>Embedding of \<open>code/tfsemb_main.py\<close>\<close>

text \<open>
  The Python script aligns sub-word tokens of a language model with a word-level
  transcript. Its own logic is list bookkeeping: tokenising and exploding a table,
  sliding a context window, gathering one output row per token from overlapping
  windows, and scoring predictions. Tensors are modelled as nested lists, a tensor of
  shape \<open>(b, L, \<cdot>)\<close> being a list of \<open>b\<close> lists of length \<open>L\<close>. Every Python
  exception is a value of type \<open>exc\<close>, and a function that can raise returns
  \<open>exc + 'a\<close> with \<open>Inl\<close> for the exception.
\<close>

subsection \<open>Exceptions\<close>

datatype exc =
    ValueError
  | IndexError
  | KeyError
  | TypeError
  | AssertionError
  | AttributeError
  | RuntimeError
  | Exception string
  | SystemExit int

subsection \<open>The sliding window (\<open>window\<close>, lines 164-173)\<close>

text \<open>
  \<open>slide result it\<close> is the \<open>for elem in it\<close> loop: each remaining element drops the
  oldest entry of \<open>result\<close>, appends the element and yields the new tuple. Python's
  \<open>result[1:]\<close> of an empty tuple is the empty tuple, as \<open>tl []\<close> is \<open>[]\<close>.
\<close>

fun slide :: "'a list \<Rightarrow> 'a list \<Rightarrow> 'a list list" where
  "slide result [] = []"
| "slide result (elem # it) = (tl result @ [elem]) # slide (tl result @ [elem]) it"

text \<open>
  \<open>sys.maxsize\<close> of 64-bit CPython: the largest length a sequence can have and the
  largest stop value \<open>islice\<close> accepts.
\<close>

definition sys_maxsize :: int where
  "sys_maxsize = 2 ^ 63 - 1"

text \<open>
  \<open>window seq n\<close> is \<open>list(window(seq, n))\<close>. \<open>islice(it, n)\<close> raises \<open>ValueError\<close>
  unless \<open>0 <= n <= sys.maxsize\<close>; otherwise it takes the first \<open>n\<close> elements and
  leaves the rest in the iterator. The guard \<open>len(result) <= n\<close> is kept as written.
\<close>

definition window :: "'a list \<Rightarrow> int \<Rightarrow> exc + 'a list list" where
  "window seq n =
     (if n < 0 \<or> sys_maxsize < n then Inl ValueError
      else
        (let result = take (nat n) seq;
             it = drop (nat n) seq
         in Inr ((if int (length result) \<le> n then [result] else []) @ slide result it)))"

subsection \<open>Python strings\<close>

text \<open>
  A Python \<open>str\<close> is a sequence of Unicode code points, here a list of natural
  numbers. \<open>str\<close> turns an ASCII literal into that list. Words, tokens and the keys of
  the GloVe table are such strings; the option values that the code only compares
  with ASCII literals (embedding type, subject) stay literals.
\<close>

type_synonym pystr = "nat list"

definition str :: "string \<Rightarrow> pystr" where
  "str s = map of_char s"

subsection \<open>Static GloVe vectors (\<open>get_vector\<close>, lines 344-348)\<close>

text \<open>
  The GloVe table is gensim's \<open>KeyedVectors\<close>, a library object: a finite map from
  words to vectors whose \<open>get_vector\<close> raises \<open>KeyError\<close> for a word it does not hold.
\<close>

type_synonym 'v keyed_vectors = "pystr \<Rightarrow> 'v option"

definition glove_get_vector :: "'v keyed_vectors \<Rightarrow> pystr \<Rightarrow> exc + 'v" where
  "glove_get_vector glove x = (case glove x of None \<Rightarrow> Inl KeyError | Some v \<Rightarrow> Inr v)"

text \<open>\<open>try: return glove.get_vector(x)  except KeyError: return None\<close>\<close>

definition get_vector :: "pystr \<Rightarrow> 'v keyed_vectors \<Rightarrow> exc + 'v option" where
  "get_vector x glove =
     (case glove_get_vector glove x of
        Inr v \<Rightarrow> Inr (Some v)
      | Inl e \<Rightarrow> if e = KeyError then Inr None else Inl e)"

subsection \<open>The word table and the token table\<close>

text \<open>
  A row of the label table: the word, its conversation, and the remaining word-level
  columns (sentence index, sentence, onset, offset, speaker) as one value.
\<close>

record 'a word_row =
  word :: pystr
  conversation_id :: int
  other_fields :: 'a

text \<open>
  A row of the exploded table: the columns of the word row it comes from, the GloVe
  column added before the explode, and the token columns.
\<close>

record ('a, 'v) token_row =
  wrow :: "'a word_row"
  glove50_embeddings :: "'v option"
  token :: pystr
  token_id :: int
  token_is_root :: bool

text \<open>The tokenizer is an object of the transformers library.\<close>

record tokenizer =
  tokenize :: "pystr \<Rightarrow> pystr list"
  convert_tokens_to_ids :: "pystr \<Rightarrow> int"
  convert_tokens_to_string :: "pystr \<Rightarrow> pystr"
  convert_ids_to_tokens :: "int \<Rightarrow> pystr"

text \<open>
  \<open>add_glove_embeddings\<close> (lines 73-81): any dimension but 50 raises; otherwise the
  column \<open>glove50_embeddings\<close> is \<open>get_vector\<close> of each word.
\<close>

fun sequence :: "(exc + 'a) list \<Rightarrow> exc + 'a list" where
  "sequence [] = Inr []"
| "sequence (x # xs) =
     (case x of
        Inl e \<Rightarrow> Inl e
      | Inr v \<Rightarrow> (case sequence xs of Inl e \<Rightarrow> Inl e | Inr vs \<Rightarrow> Inr (v # vs)))"

definition add_glove_embeddings ::
  "'v keyed_vectors \<Rightarrow> 'a word_row list \<Rightarrow> int \<Rightarrow> exc + ('a word_row \<times> 'v option) list" where
  "add_glove_embeddings glove df dim =
     (if dim = 50
      then sequence (map (\<lambda>r. case get_vector (word r) glove of
                                  Inl e \<Rightarrow> Inl e
                                | Inr g \<Rightarrow> Inr (r, g)) df)
      else Inl (Exception ''Incorrect glove dimension''))"

text \<open>
  \<open>DataFrame.explode\<close>: one row per element of the list-valued column, in order; a
  row whose list is empty is kept once with a missing value (NaN) as its element.
\<close>

definition explode :: "('r \<times> 't list) list \<Rightarrow> ('r \<times> 't option) list" where
  "explode df =
     concat (map (\<lambda>(r, ts). if ts = [] then [(r, None)] else map (\<lambda>t. (r, Some t)) ts) df)"

text \<open>Python's \<open>string.punctuation\<close>, the 32 ASCII punctuation characters, by
  code point.\<close>

definition punctuation :: pystr where
  "punctuation =
     [0x21, 0x22, 0x23, 0x24, 0x25, 0x26, 0x27, 0x28,
      0x29, 0x2A, 0x2B, 0x2C, 0x2D, 0x2E, 0x2F, 0x3A,
      0x3B, 0x3C, 0x3D, 0x3E, 0x3F, 0x40, 0x5B, 0x5C,
      0x5D, 0x5E, 0x5F, 0x60, 0x7B, 0x7C, 0x7D, 0x7E]"

text \<open>
  \<open>token.isin(list(string.punctuation))\<close>: the token is one of the one-character
  strings; a missing token is in no list.
\<close>

definition is_punctuation :: "pystr option \<Rightarrow> bool" where
  "is_punctuation t = (case t of None \<Rightarrow> False | Some s \<Rightarrow> s \<in> set (map (\<lambda>c. [c]) punctuation))"

definition remove_punctuation :: "('r \<times> pystr option) list \<Rightarrow> ('r \<times> pystr option) list" where
  "remove_punctuation df = filter (\<lambda>(r, t). \<not> is_punctuation t) df"

text \<open>
  \<open>convert_token_to_idx\<close> (lines 100-102) applies the tokenizer's
  \<open>convert_tokens_to_ids\<close> to each token. On a missing token (a float NaN) the
  tokenizer iterates over its argument and raises \<open>TypeError\<close>.
\<close>

definition convert_token_to_idx ::
  "tokenizer \<Rightarrow> ('r \<times> pystr option) list \<Rightarrow> exc + ('r \<times> pystr \<times> int) list" where
  "convert_token_to_idx tk df =
     sequence (map (\<lambda>(r, t). case t of
                                 None \<Rightarrow> Inl TypeError
                               | Some s \<Rightarrow> Inr (r, s, convert_tokens_to_ids tk s)) df)"

text \<open>
  Python's \<open>str.isspace\<close> on one code point: the 29 code points that Unicode
  classes as whitespace (category \<open>Zs\<close>, or bidirectional class \<open>WS\<close>, \<open>B\<close> or \<open>S\<close>).
  \<open>str.strip()\<close> removes exactly these from both ends.
\<close>

definition is_space :: "nat \<Rightarrow> bool" where
  "is_space c =
     ((0x09 \<le> c \<and> c \<le> 0x0D) \<or> (0x1C \<le> c \<and> c \<le> 0x20) \<or> c = 0x85 \<or> c = 0xA0
      \<or> c = 0x1680 \<or> (0x2000 \<le> c \<and> c \<le> 0x200A) \<or> c = 0x2028 \<or> c = 0x2029
      \<or> c = 0x202F \<or> c = 0x205F \<or> c = 0x3000)"

definition strip :: "pystr \<Rightarrow> pystr" where
  "strip s = rev (dropWhile is_space (rev (dropWhile is_space s)))"

text \<open>
  \<open>check_token_is_root\<close> (lines 84-93). Only the embedding types \<open>gpt2\<close> and \<open>bert\<close>
  have a rule; every other type raises.
\<close>

definition check_token_is_root ::
  "tokenizer \<Rightarrow> string \<Rightarrow> (('a word_row \<times> 'v option) \<times> pystr \<times> int) list
     \<Rightarrow> exc + ('a, 'v) token_row list" where
  "check_token_is_root tk embedding_type df =
     (if embedding_type = ''gpt2'' then
        Inr (map (\<lambda>((r, g), t, i).
               \<lparr>wrow = r, glove50_embeddings = g, token = t, token_id = i,
                token_is_root = (word r = strip (convert_tokens_to_string tk t))\<rparr>) df)
      else if embedding_type = ''bert'' then
        Inr (map (\<lambda>((r, g), t, i).
               \<lparr>wrow = r, glove50_embeddings = g, token = t, token_id = i,
                token_is_root = (word r = t)\<rparr>) df)
      else Inl (Exception ''embedding type doesn't exist''))"

text \<open>\<open>tokenize_and_explode\<close> (lines 105-125).\<close>

definition tokenize_and_explode ::
  "tokenizer \<Rightarrow> 'v keyed_vectors \<Rightarrow> string \<Rightarrow> 'a word_row list
     \<Rightarrow> exc + ('a, 'v) token_row list" where
  "tokenize_and_explode tk glove embedding_type df =
     (case add_glove_embeddings glove df 50 of
        Inl e \<Rightarrow> Inl e
      | Inr df1 \<Rightarrow>
          (let df2 = map (\<lambda>(r, g). ((r, g), tokenize tk (word r))) df1;
               df3 = explode df2;
               df4 = remove_punctuation df3
           in case convert_token_to_idx tk df4 of
                Inl e \<Rightarrow> Inl e
              | Inr df5 \<Rightarrow> check_token_is_root tk embedding_type df5))"

subsection \<open>Tensors and the language model\<close>

text \<open>
  \<open>torch.tensor\<close> of a list of token tuples needs rows of one length and raises
  \<open>ValueError\<close> otherwise.
\<close>

definition torch_tensor :: "'a list list \<Rightarrow> exc + 'a list list" where
  "torch_tensor ws =
     (if list_all (\<lambda>w. length w = length (hd ws)) ws then Inr ws else Inl ValueError)"

text \<open>\<open>DataLoader(input_ids, batch_size=2, shuffle=False)\<close>: consecutive pairs of
  windows, the last batch holding one window when their number is odd.\<close>

fun data_loader :: "'a list \<Rightarrow> 'a list list" where
  "data_loader [] = []"
| "data_loader [x] = [[x]]"
| "data_loader (x # y # xs) = [x, y] # data_loader xs"

text \<open>
  The pretrained model is a library object. For a window it gives one hidden-state
  vector and one logit vector per position, so the outputs for a batch of shape
  \<open>(b, L)\<close> have shape \<open>(b, L, \<cdot>)\<close>.
\<close>

record ('h, 'l) language_model =
  hidden_state :: "int list \<Rightarrow> nat \<Rightarrow> 'h"
  logit :: "int list \<Rightarrow> nat \<Rightarrow> 'l"

definition model_hidden_states :: "('h, 'l) language_model \<Rightarrow> int list list \<Rightarrow> 'h list list" where
  "model_hidden_states lm batch = map (\<lambda>w. map (hidden_state lm w) [0..<length w]) batch"

definition model_logits :: "('h, 'l) language_model \<Rightarrow> int list list \<Rightarrow> 'l list list" where
  "model_logits lm batch = map (\<lambda>w. map (logit lm w) [0..<length w]) batch"

subsection \<open>The gather rule (\<open>gather_logits\<close>, lines 191-202)\<close>

text \<open>\<open>logits[0, :-1, :]\<close>: the first window without its last position; an empty
  batch has no first window.\<close>

definition first_all_but_last :: "'v list list \<Rightarrow> exc + 'v list" where
  "first_all_but_last logits = (case logits of [] \<Rightarrow> Inl IndexError | w # _ \<Rightarrow> Inr (butlast w))"

text \<open>\<open>logits[:, -2, :]\<close>: position \<open>L - 2\<close> of every window; index \<open>-2\<close> is out of
  range when a window has fewer than two positions.\<close>

definition second_to_last :: "'v list list \<Rightarrow> exc + 'v list" where
  "second_to_last logits =
     (if list_all (\<lambda>w. 2 \<le> length w) logits
      then Inr (map (\<lambda>w. w ! (length w - 2)) logits)
      else Inl IndexError)"

definition gather_logits :: "nat \<Rightarrow> 'v list list \<Rightarrow> exc + 'v list" where
  "gather_logits batch_num logits =
     (if batch_num = 0 then
        (if length logits = 1 then first_all_but_last logits
         else
           (case first_all_but_last logits of
              Inl e \<Rightarrow> Inl e
            | Inr first_sentence_preds \<Rightarrow>
                (case second_to_last (tl logits) of
                   Inl e \<Rightarrow> Inl e
                 | Inr rem_sentences_preds \<Rightarrow> Inr (first_sentence_preds @ rem_sentences_preds))))
      else second_to_last logits)"

subsection \<open>Embeddings (\<open>extract_token_embeddings_new\<close>, lines 176-188)\<close>

text \<open>An embedding row is a gathered hidden state or the row of NaNs.\<close>

datatype 'h embedding = NaN_row | Hidden 'h

text \<open>\<open>torch.cat\<close> raises on an empty list of tensors; otherwise the batches are
  concatenated and one NaN row is put in front.\<close>

definition extract_token_embeddings_new :: "'h list list \<Rightarrow> exc + 'h embedding list" where
  "extract_token_embeddings_new concat_output =
     (if concat_output = [] then Inl RuntimeError
      else Inr ([NaN_row] @ map Hidden (concat concat_output)))"

subsection \<open>Prediction scoring (\<open>get_correct_prediction_probability\<close>, lines 205-241)\<close>

text \<open>
  The numeric operations of torch on one row of logits: \<open>softmax\<close>, the pair of
  \<open>max\<close> (value and index), and the entry \<open>gather\<close> reads at a token id.
\<close>

record ('l, 'p) torch_ops =
  softmax :: "'l \<Rightarrow> 'l"
  row_max :: "'l \<Rightarrow> 'p \<times> int"
  row_at :: "'l \<Rightarrow> int \<Rightarrow> 'p"

text \<open>\<open>sti[0, 1:]\<close> and \<open>sti[1:, -1]\<close> on the tensor of windows.\<close>

definition first_tail :: "'a list list \<Rightarrow> exc + 'a list" where
  "first_tail sti = (case sti of [] \<Rightarrow> Inl IndexError | w # _ \<Rightarrow> Inr (tl w))"

definition rest_last :: "'a list list \<Rightarrow> exc + 'a list" where
  "rest_last sti =
     (if list_all (\<lambda>w. 1 \<le> length w) (tl sti) then Inr (map last (tl sti)) else Inl IndexError)"

definition true_y_of :: "nat \<Rightarrow> int list list \<Rightarrow> exc + int list" where
  "true_y_of rows sentence_token_ids =
     (if rows = 1 then first_tail sentence_token_ids
      else
        (case torch_tensor sentence_token_ids of
           Inl e \<Rightarrow> Inl e
         | Inr sti \<Rightarrow>
             (case first_tail sti of
                Inl e \<Rightarrow> Inl e
              | Inr a \<Rightarrow> (case rest_last sti of Inl e \<Rightarrow> Inl e | Inr b \<Rightarrow> Inr (a @ b)))))"

text \<open>
  \<open>gather(1, true_y)\<close> reads one entry in each of the first \<open>len(true_y)\<close> rows and
  raises when the index has more rows than the input.
\<close>

definition get_correct_prediction_probability ::
  "tokenizer \<Rightarrow> ('l, 'p) torch_ops \<Rightarrow> 'l list list \<Rightarrow> int list list
     \<Rightarrow> exc + (pystr option list \<times> 'p option list \<times> 'p option list)" where
  "get_correct_prediction_probability tk ops concat_logits sentence_token_ids =
     (if concat_logits = [] then Inl RuntimeError
      else
        (let prediction_scores = concat concat_logits in
         if length prediction_scores = 0 then Inr ([None], [None], [None])
         else
           (case true_y_of (length prediction_scores) sentence_token_ids of
              Inl e \<Rightarrow> Inl e
            | Inr true_y \<Rightarrow>
                (let prediction_probabilities = map (softmax ops) prediction_scores;
                     top1 = map (row_max ops) prediction_probabilities;
                     predicted_tokens = map (\<lambda>m. convert_ids_to_tokens tk (snd m)) top1;
                     predicted_words = map (convert_tokens_to_string tk) predicted_tokens
                 in if length prediction_probabilities < length true_y then Inl RuntimeError
                    else Inr (map Some predicted_words @ [None],
                              map (\<lambda>m. Some (fst m)) top1 @ [None],
                              map Some (map2 (row_at ops) prediction_probabilities true_y)
                                @ [None])))))"

subsection \<open>Command-line arguments and the environment\<close>

text \<open>
  The argument namespace as the functions read it. \<open>output_file\<close> and
  \<open>conversation_list\<close> are attributes that \<open>setup_environ\<close> adds; an attribute that was
  never set is \<open>None\<close> here and reading it raises \<open>AttributeError\<close>. The command-line
  option \<open>--conversation-id\<close> is \<open>args_conversation_id\<close>, the table column keeps the
  name \<open>conversation_id\<close>.
\<close>

record args =
  embedding_type :: string
  context_length :: int
  subject :: string
  history :: bool
  args_conversation_id :: int
  conversation_list :: "string list"
  output_file :: "string option"

text \<open>
  What the run reads from outside: the entries of the subject's data directory, the
  number of GPUs, the labels of the pickle and the tokenizer's
  \<open>max_len_single_sentence\<close>.
\<close>

record 'a environ =
  listing :: "string list"
  gpus :: nat
  labels :: "'a word_row list"
  max_len_single_sentence :: int

text \<open>
  A computation that calls the model returns the number of forward passes it made
  together with its outcome, so that a run that raises still tells how many passes
  came before.
\<close>

type_synonym 'a run = "nat \<times> (exc + 'a)"

subsection \<open>Embeddings with context (\<open>generate_embeddings_with_context\<close>, lines 244-301)\<close>

text \<open>The loop over the batches of one conversation (lines 274-281).\<close>

fun run_batches ::
  "('h, 'l) language_model \<Rightarrow> nat \<Rightarrow> int list list list \<Rightarrow> 'h list list \<Rightarrow> 'l list list
     \<Rightarrow> ('h list list \<times> 'l list list) run" where
  "run_batches lm batch_num [] concat_output concat_logits =
     (0, Inr (concat_output, concat_logits))"
| "run_batches lm batch_num (batch # rest) concat_output concat_logits =
     (case gather_logits batch_num (model_hidden_states lm batch) of
        Inl e \<Rightarrow> (1, Inl e)
      | Inr item1 \<Rightarrow>
          (case gather_logits batch_num (model_logits lm batch) of
             Inl e \<Rightarrow> (1, Inl e)
           | Inr item2 \<Rightarrow>
               (case run_batches lm (Suc batch_num) rest
                       (concat_output @ [item1]) (concat_logits @ [item2]) of
                  (k, r) \<Rightarrow> (Suc k, r))))"

text \<open>The body of the loop over conversations (lines 259-291).\<close>

definition process_conversation ::
  "('h, 'l) language_model \<Rightarrow> tokenizer \<Rightarrow> ('l, 'p) torch_ops \<Rightarrow> int \<Rightarrow> int list
     \<Rightarrow> ('h embedding list \<times> pystr option list \<times> 'p option list \<times> 'p option list) run" where
  "process_conversation lm tk ops ctx token_list =
     (case window token_list ctx of
        Inl e \<Rightarrow> (0, Inl e)
      | Inr windows \<Rightarrow>
          (case torch_tensor windows of
             Inl e \<Rightarrow> (0, Inl e)
           | Inr input_ids \<Rightarrow>
               (case run_batches lm 0 (data_loader input_ids) [] [] of
                  (k, Inl e) \<Rightarrow> (k, Inl e)
                | (k, Inr (concat_output, concat_logits)) \<Rightarrow>
                    (k,
                     case extract_token_embeddings_new concat_output of
                       Inl e \<Rightarrow> Inl e
                     | Inr extracted_embeddings \<Rightarrow>
                         if length extracted_embeddings \<noteq> length token_list
                         then Inl AssertionError
                         else
                           (case get_correct_prediction_probability tk ops concat_logits windows of
                              Inl e \<Rightarrow> Inl e
                            | Inr (top1_word, top1_prob, true_y_prob) \<Rightarrow>
                                Inr (extracted_embeddings, top1_word, top1_prob, true_y_prob))))))"

text \<open>\<open>Series.unique()\<close>: the distinct values in order of first appearance.\<close>

fun unique_from :: "'a list \<Rightarrow> 'a list \<Rightarrow> 'a list" where
  "unique_from seen [] = []"
| "unique_from seen (x # xs) =
     (if x \<in> set seen then unique_from seen xs else x # unique_from (x # seen) xs)"

definition unique :: "'a list \<Rightarrow> 'a list" where
  "unique xs = unique_from [] xs"

text \<open>The loop over conversations: one array of embeddings is appended per
  conversation, the three prediction lists are extended.\<close>

fun conversation_loop ::
  "('h, 'l) language_model \<Rightarrow> tokenizer \<Rightarrow> ('l, 'p) torch_ops \<Rightarrow> int
     \<Rightarrow> ('a, 'v) token_row list \<Rightarrow> int list
     \<Rightarrow> 'h embedding list list \<Rightarrow> pystr option list \<Rightarrow> 'p option list \<Rightarrow> 'p option list
     \<Rightarrow> ('h embedding list list \<times> pystr option list \<times> 'p option list \<times> 'p option list) run"
  where
  "conversation_loop lm tk ops ctx df [] fe fw fp ft = (0, Inr (fe, fw, fp, ft))"
| "conversation_loop lm tk ops ctx df (conversation # rest) fe fw fp ft =
     (case process_conversation lm tk ops ctx
             (map token_id (filter (\<lambda>r. conversation_id (wrow r) = conversation) df)) of
        (k, Inl e) \<Rightarrow> (k, Inl e)
      | (k, Inr (emb, top1_word, top1_prob, true_y_prob)) \<Rightarrow>
          (case conversation_loop lm tk ops ctx df rest
                  (fe @ [emb]) (fw @ top1_word) (fp @ top1_prob) (ft @ true_y_prob) of
             (k', r) \<Rightarrow> (k + k', r)))"

text \<open>A row of the output table: the token row and the four columns added at the
  end of the function.\<close>

record ('a, 'v, 'h, 'p) output_row =
  trow :: "('a, 'v) token_row"
  embeddings :: "'h embedding"
  top1_pred :: "pystr option"
  top1_pred_prob :: "'p option"
  true_pred_prob :: "'p option"

text \<open>
  Assigning a list to a column raises \<open>ValueError\<close> unless it has one entry per row,
  and so does \<open>np.concatenate\<close> of no array. The values go to the rows by position.
  \<open>save_pickle\<close> reads \<open>args.output_file\<close>; writing the file itself is not modelled.
\<close>

definition generate_embeddings_with_context ::
  "('h, 'l) language_model \<Rightarrow> tokenizer \<Rightarrow> ('l, 'p) torch_ops \<Rightarrow> 'v keyed_vectors \<Rightarrow> args
     \<Rightarrow> 'a word_row list \<Rightarrow> ('a, 'v, 'h, 'p) output_row list run" where
  "generate_embeddings_with_context lm tk ops glove a df0 =
     (case tokenize_and_explode tk glove (embedding_type a) df0 of
        Inl e \<Rightarrow> (0, Inl e)
      | Inr df \<Rightarrow>
          (case conversation_loop lm tk ops (context_length a) df
                  (unique (map (\<lambda>r. conversation_id (wrow r)) df)) [] [] [] [] of
             (k, Inl e) \<Rightarrow> (k, Inl e)
           | (k, Inr (final_embeddings, final_top1_word, final_top1_prob, final_true_y_prob)) \<Rightarrow>
               (k,
                if final_embeddings = [] then Inl ValueError
                else if length (concat final_embeddings) \<noteq> length df then Inl ValueError
                else if length final_top1_word \<noteq> length df then Inl ValueError
                else if length final_top1_prob \<noteq> length df then Inl ValueError
                else if length final_true_y_prob \<noteq> length df then Inl ValueError
                else
                  (case output_file a of
                     None \<Rightarrow> Inl AttributeError
                   | Some f \<Rightarrow>
                       Inr (map (\<lambda>(r, e, w, p, t).
                                   \<lparr>trow = r, embeddings = e, top1_pred = w,
                                    top1_pred_prob = p, true_pred_prob = t\<rparr>)
                              (zip df (zip (concat final_embeddings)
                                 (zip final_top1_word
                                    (zip final_top1_prob final_true_y_prob)))))))))"

subsection \<open>The other two generators\<close>

text \<open>
  \<open>generate_embeddings\<close> (lines 304-341) calls \<open>tokenize_and_explode\<close> with three
  arguments, one more than it takes, before any forward pass: the call raises
  \<open>TypeError\<close>.
\<close>

definition generate_embeddings :: "args \<Rightarrow> 'a word_row list \<Rightarrow> unit run" where
  "generate_embeddings a df = (0, Inl TypeError)"

text \<open>\<open>gen_word2vec_embeddings\<close> (lines 351-355) makes no forward pass.\<close>

definition gen_word2vec_embeddings ::
  "'v keyed_vectors \<Rightarrow> args \<Rightarrow> 'a word_row list \<Rightarrow> ('a word_row \<times> 'v option) list run" where
  "gen_word2vec_embeddings glove a df =
     (0,
      case sequence (map (\<lambda>r. case get_vector (word r) glove of
                                 Inl e \<Rightarrow> Inl e
                               | Inr g \<Rightarrow> Inr (r, g)) df) of
        Inl e \<Rightarrow> Inl e
      | Inr rows \<Rightarrow> (case output_file a of None \<Rightarrow> Inl AttributeError | Some f \<Rightarrow> Inr rows))"

subsection \<open>Start-up (\<open>select_tokenizer_and_model\<close>, \<open>setup_environ\<close>, \<open>main\<close>)\<close>

text \<open>
  \<open>select_tokenizer_and_model\<close> (lines 392-431): four model families and
  \<open>glove50\<close> are known, anything else prints a message and calls \<open>exit(1)\<close>. Loading
  the pretrained objects is the library's work.
\<close>

definition select_tokenizer_and_model :: "int \<Rightarrow> args \<Rightarrow> exc + args" where
  "select_tokenizer_and_model max_len a =
     (if embedding_type a = ''gpt2'' \<or> embedding_type a = ''roberta''
         \<or> embedding_type a = ''bert'' \<or> embedding_type a = ''bart''
      then
        (if history a \<and> context_length a \<le> 0
         then Inr (a\<lparr>context_length := max_len\<rparr>)
         else Inr a)
      else if embedding_type a = ''glove50'' then Inr a
      else Inl (SystemExit 1))"

text \<open>Python list indexing with a possibly negative index.\<close>

definition py_index :: "'a list \<Rightarrow> int \<Rightarrow> exc + 'a" where
  "py_index xs i =
     (if 0 \<le> i \<and> i < int (length xs) then Inr (xs ! nat i)
      else if i < 0 \<and> - int (length xs) \<le> i then Inr (xs ! nat (int (length xs) + i))
      else Inl IndexError)"

text \<open>
  \<open>setup_environ\<close> (lines 358-389). The two assertions on the number of
  conversations come first; \<open>nn.DataParallel(args.model)\<close> reads an attribute that
  \<open>glove50\<close> never sets; the output file is named only for a non-zero conversation
  id (its directory part is left out).
\<close>

definition setup_environ :: "'a environ \<Rightarrow> args \<Rightarrow> exc + args" where
  "setup_environ env a =
     (let a1 = a\<lparr>conversation_list := sort (listing env)\<rparr> in
      if (if subject a1 = ''625''
          then length (conversation_list a1) \<noteq> 54
          else length (conversation_list a1) \<noteq> 79)
      then Inl AssertionError
      else if 1 < gpus env \<and> embedding_type a1 = ''glove50'' then Inl AttributeError
      else if args_conversation_id a1 \<noteq> 0 then
        (case py_index (conversation_list a1) (args_conversation_id a1 - 1) of
           Inl e \<Rightarrow> Inl e
         | Inr output_file_name \<Rightarrow> Inr (a1\<lparr>output_file := Some output_file_name\<rparr>))
      else Inr a1)"

text \<open>\<open>load_pickle\<close> (lines 34-51): the labels, restricted to one conversation when
  a conversation id is given.\<close>

definition load_pickle :: "'a environ \<Rightarrow> args \<Rightarrow> 'a word_row list" where
  "load_pickle env a =
     (if args_conversation_id a \<noteq> 0
      then filter (\<lambda>r. conversation_id r = args_conversation_id a) (labels env)
      else labels env)"

definition forget :: "'a run \<Rightarrow> unit run" where
  "forget r = (case r of (k, Inl e) \<Rightarrow> (k, Inl e) | (k, Inr v) \<Rightarrow> (k, Inr ()))"

text \<open>\<open>main\<close> (lines 454-472); it returns nothing, the run's outcome is the
  exception, if any, and the number of forward passes.\<close>

definition main ::
  "'a environ \<Rightarrow> ('h, 'l) language_model \<Rightarrow> tokenizer \<Rightarrow> ('l, 'p) torch_ops
     \<Rightarrow> 'v keyed_vectors \<Rightarrow> args \<Rightarrow> unit run" where
  "main env lm tk ops glove a0 =
     (case select_tokenizer_and_model (max_len_single_sentence env) a0 of
        Inl e \<Rightarrow> (0, Inl e)
      | Inr a1 \<Rightarrow>
          (case setup_environ env a1 of
             Inl e \<Rightarrow> (0, Inl e)
           | Inr a \<Rightarrow>
               (let utterance_df = load_pickle env a in
                if history a then
                  (if embedding_type a = ''gpt2''
                   then forget (generate_embeddings_with_context lm tk ops glove a utterance_df)
                   else (0, Inr ()))
                else if embedding_type a = ''glove50''
                then forget (gen_word2vec_embeddings glove a utterance_df)
                else generate_embeddings a utterance_df)))"

subsection \<open>Concrete inputs for the examples\<close>

text \<open>
  A small tokenizer that splits \<open>hi,\<close> into a word piece and a comma and leaves
  every other word whole; a model and numeric operations that return their
  arguments, so that an output row shows the window and position it was read from
  and a probability shows the row and the token id it was read at.
\<close>

definition ex_tokenizer :: tokenizer where
  "ex_tokenizer =
     \<lparr>tokenize = (\<lambda>w. if w = str ''hi,'' then [str ''hi'', str '',''] else [w]),
      convert_tokens_to_ids =
        (\<lambda>t. if t = str ''the'' then 1 else if t = str ''cat'' then 2 else 0),
      convert_tokens_to_string = (\<lambda>t. t),
      convert_ids_to_tokens =
        (\<lambda>i. if i = 1 then str ''the'' else if i = 2 then str ''cat'' else str ''unk'')\<rparr>"

definition ex_model :: "(int list \<times> nat, int list \<times> nat) language_model" where
  "ex_model = \<lparr>hidden_state = (\<lambda>w p. (w, p)), logit = (\<lambda>w p. (w, p))\<rparr>"

definition ex_ops :: "(int list \<times> nat, (int list \<times> nat) \<times> int) torch_ops" where
  "ex_ops = \<lparr>softmax = (\<lambda>l. l), row_max = (\<lambda>l. ((l, 1), 1)), row_at = (\<lambda>l y. (l, y))\<rparr>"

definition ex_glove :: "nat keyed_vectors" where
  "ex_glove = (\<lambda>w. if w = str ''the'' then Some 50 else None)"

definition ex_args :: args where
  "ex_args =
     \<lparr>embedding_type = ''gpt2'', context_length = 2, subject = ''625'', history = True,
      args_conversation_id = 1, conversation_list = [], output_file = Some ''conversation''\<rparr>"

definition ex_environ :: "unit environ" where
  "ex_environ =
     \<lparr>listing = [''conversation''], gpus = 0,
      labels = [\<lparr>word = str ''the'', conversation_id = 1, other_fields = ()\<rparr>,
                \<lparr>word = str ''cat'', conversation_id = 1, other_fields = ()\<rparr>],
      max_len_single_sentence = 1024\<rparr>"

section \<open>Properties\<close>

subsection \<open>Windowing\<close>

lemma slide_length: "length (slide r it) = length it"
  by (induction it arbitrary: r) simp_all

lemma slide_nth:
  "r \<noteq> [] \<Longrightarrow> i < length it \<Longrightarrow>
     slide r it ! i = take (length r) (drop (Suc i) (r @ it))"
proof (induction it arbitrary: r i)
  case Nil
  then show ?case by simp
next
  case (Cons e it)
  obtain x r' where r: "r = x # r'"
    using Cons.prems(1) by (cases r) auto
  show ?case
  proof (cases i)
    case 0
    then show ?thesis by (simp add: r)
  next
    case (Suc j)
    have j: "j < length it" using Cons.prems(2) Suc by simp
    have "slide (tl r @ [e]) it ! j
            = take (length (tl r @ [e])) (drop (Suc j) ((tl r @ [e]) @ it))"
      by (rule Cons.IH) (simp_all add: j)
    then show ?thesis by (simp add: Suc r)
  qed
qed

text \<open>
  C10 (as amended). A sequence strictly shorter than the window size, the window
  size being at most \<open>sys.maxsize\<close>, yields exactly one window, the whole sequence in
  order; the empty sequence yields one empty window. Nothing is raised and the
  result is never empty.
\<close>

theorem window_short_sequence:
  "int (length seq) < n \<Longrightarrow> n \<le> sys_maxsize \<Longrightarrow> window seq n = Inr [seq]"
  by (simp add: window_def Let_def)

theorem window_short_sequence_witness:
  "int (length [7::int, 8]) < 5 \<and> 5 \<le> sys_maxsize \<and> window [7::int, 8] 5 = Inr [[7, 8]]
   \<and> int (length ([]::int list)) < 1 \<and> window ([]::int list) 1 = Inr [[]]"
  using window_short_sequence [of "[7::int, 8]" 5]
        window_short_sequence [of "[]::int list" 1]
  by (simp add: sys_maxsize_def)

text \<open>
  The claim as written covers every window size above the length. A window size
  above \<open>sys.maxsize\<close> is refused by \<open>islice\<close>: the call raises \<open>ValueError\<close> and yields
  no window.
\<close>

theorem window_beyond_maxsize_counterexample:
  "int (length [7::int, 8]) < sys_maxsize + 1
   \<and> window [7::int, 8] (sys_maxsize + 1) = Inl ValueError"
  by (simp add: window_def sys_maxsize_def)

lemma window_eq:
  assumes "0 < n" "n \<le> length seq" "int n \<le> sys_maxsize"
  shows "window seq (int n) = Inr (map (\<lambda>i. take n (drop i seq)) [0..<length seq - n + 1])"
proof -
  let ?r = "take n seq" and ?it = "drop n seq"
  have rne: "?r \<noteq> []" using assms by (cases seq) auto
  have lr: "length ?r = n" using assms by simp
  have "[?r] @ slide ?r ?it = map (\<lambda>i. take n (drop i seq)) [0..<length seq - n + 1]"
  proof (rule nth_equalityI)
    show "length ([?r] @ slide ?r ?it) = length (map (\<lambda>i. take n (drop i seq)) [0..<length seq - n + 1])"
      by (simp add: slide_length)
  next
    fix i assume "i < length ([?r] @ slide ?r ?it)"
    then have i: "i < length seq - n + 1" by (simp add: slide_length)
    have rhs: "map (\<lambda>i. take n (drop i seq)) [0..<length seq - n + 1] ! i = take n (drop (0 + i) seq)"
      by (rule nth_map_upt) (use i in simp)
    show "([?r] @ slide ?r ?it) ! i = map (\<lambda>i. take n (drop i seq)) [0..<length seq - n + 1] ! i"
    proof (cases i)
      case 0
      then show ?thesis unfolding rhs by simp
    next
      case (Suc j)
      have j: "j < length ?it" using i Suc by simp
      have "slide ?r ?it ! j = take (length ?r) (drop (Suc j) (?r @ ?it))"
        using rne j by (rule slide_nth)
      then have "slide ?r ?it ! j = take n (drop (Suc j) seq)"
        using assms(2) by (simp add: min_absorb2 del: drop_Suc)
      then show ?thesis unfolding rhs using Suc by simp
    qed
  qed
  then show ?thesis using assms by (simp add: window_def Let_def)
qed

text \<open>
  C1 (as amended). For a sequence of length \<open>N\<close> (a Python sequence has at most
  \<open>sys.maxsize\<close> elements) and a window size \<open>W\<close> with \<open>1 \<le> W \<le> N\<close> the windows are
  exactly the \<open>N - W + 1\<close> contiguous slices \<open>seq[i : i + W]\<close>, in order of \<open>i\<close>: each
  has length \<open>W\<close>, consecutive windows are one step apart, no shorter window follows
  the last full one, and every token lies in some window.
\<close>

theorem window_full_windows:
  assumes n0: "0 < n" and nN: "n \<le> length seq"
    and py: "int (length seq) \<le> sys_maxsize"
  shows "\<exists>ws. window seq (int n) = Inr ws
           \<and> length ws = length seq - n + 1
           \<and> (\<forall>i<length ws. ws ! i = take n (drop i seq) \<and> length (ws ! i) = n)
           \<and> (\<forall>j<length seq. \<exists>i<length ws. \<exists>k<n. ws ! i ! k = seq ! j)"
proof -
  define ws where "ws = map (\<lambda>i. take n (drop i seq)) [0..<length seq - n + 1]"
  have len: "length ws = length seq - n + 1" by (simp add: ws_def)
  have nth: "ws ! i = take n (drop i seq)" if "i < length seq - n + 1" for i
    using nth_map_upt [of i "length seq - n + 1" 0 "\<lambda>i. take n (drop i seq)"] that
    by (simp add: ws_def)
  have full: "length (ws ! i) = n" if "i < length seq - n + 1" for i
    using that n0 nN by (simp add: nth [OF that])
  have cover: "\<exists>i<length ws. \<exists>k<n. ws ! i ! k = seq ! j" if j: "j < length seq" for j
  proof (cases "j < n")
    case True
    have "ws ! 0 ! j = seq ! j" using True by (simp add: nth [of 0])
    moreover have "0 < length ws" by (simp add: len)
    ultimately show ?thesis using True by blast
  next
    case False
    let ?i = "j - n + 1"
    have i: "?i < length seq - n + 1" using j False n0 nN by simp
    have "ws ! ?i ! (n - 1) = take n (drop ?i seq) ! (n - 1)"
      by (simp only: nth [OF i])
    also have "\<dots> = seq ! (?i + (n - 1))"
      using n0 nN j False by simp
    also have "?i + (n - 1) = j"
      using n0 nN False by simp
    finally have "ws ! ?i ! (n - 1) = seq ! j" .
    moreover have "?i < length ws" using i by (simp add: len)
    moreover have "n - 1 < n" using n0 by simp
    ultimately show ?thesis by blast
  qed
  have "int n \<le> sys_maxsize" using nN py by simp
  then have "window seq (int n) = Inr ws"
    unfolding ws_def by (rule window_eq [OF n0 nN])
  then show ?thesis using len nth full cover by (intro exI [of _ ws]) simp
qed

theorem window_full_windows_witness:
  "0 < (2::nat) \<and> 2 \<le> length [10::int, 20, 30]
   \<and> int (length [10::int, 20, 30]) \<le> sys_maxsize
   \<and> window [10::int, 20, 30] 2 = Inr [[10, 20], [20, 30]]"
proof -
  have py: "int (length [10::int, 20, 30]) \<le> sys_maxsize" by (simp add: sys_maxsize_def)
  obtain ws where "window [10::int, 20, 30] (int 2) = Inr ws"
    using window_full_windows [of 2 "[10::int, 20, 30]"] py by auto
  then show ?thesis using py by (simp add: window_def sys_maxsize_def)
qed

text \<open>
  The claim as written promises a final shorter window holding the remainder. For
  three tokens and window size two the code yields two full windows and stops: the
  last window has two elements.
\<close>

theorem window_final_shorter_counterexample:
  "window [10::int, 20, 30] 2 = Inr [[10, 20], [20, 30]]
   \<and> \<not> length (last [[10::int, 20], [20, 30]]) < 2"
  by (simp add: window_def sys_maxsize_def)

subsection \<open>Vector lookup\<close>

text \<open>
  C9. A word the GloVe table does not hold makes the table's lookup raise
  \<open>KeyError\<close>, and \<open>get_vector\<close> returns \<open>None\<close> in its place; a word the table holds
  gives the table's vector.
\<close>

theorem get_vector_miss_is_none:
  "(glove x = None \<longrightarrow>
      glove_get_vector glove x = Inl KeyError \<and> get_vector x glove = Inr None)
   \<and> (\<forall>v. glove x = Some v \<longrightarrow> get_vector x glove = Inr (Some v))"
  by (simp add: get_vector_def glove_get_vector_def)

theorem get_vector_miss_is_none_witness:
  "ex_glove (str ''cat'') = None \<and> glove_get_vector ex_glove (str ''cat'') = Inl KeyError
   \<and> get_vector (str ''cat'') ex_glove = Inr None
   \<and> ex_glove (str ''the'') = Some 50 \<and> get_vector (str ''the'') ex_glove = Inr (Some 50)"
  using get_vector_miss_is_none [of ex_glove "str ''cat''"]
        get_vector_miss_is_none [of ex_glove "str ''the''"]
  by (simp add: ex_glove_def str_def)

subsection \<open>The gather rule\<close>

lemma butlast_positions: "butlast w = map (\<lambda>p. w ! p) [0..<length w - 1]"
  by (rule nth_equalityI) (simp_all add: nth_butlast)

lemma map_tl_positions: "map f (tl xs) = map (\<lambda>i. f (xs ! i)) [1..<length xs]"
  by (rule nth_equalityI) (simp_all add: nth_tl)

lemma map_positions: "map f xs = map (\<lambda>i. f (xs ! i)) [0..<length xs]"
  by (rule nth_equalityI) simp_all

lemma second_to_last_ok:
  "list_all (\<lambda>w. length w = L) logits \<Longrightarrow> 2 \<le> L \<Longrightarrow>
     second_to_last logits = Inr (map (\<lambda>w. w ! (L - 2)) logits)"
  by (auto simp: second_to_last_def list_all_iff)

text \<open>
  C3. For a batch of \<open>b\<close> windows with \<open>L\<close> positions each: on the first batch with
  more than one window the result is positions \<open>0 .. L - 2\<close> of window \<open>0\<close> followed
  by position \<open>L - 2\<close> of windows \<open>1 .. b - 1\<close>; on a first batch of exactly one window
  it is positions \<open>0 .. L - 2\<close> of that window; on a later batch it is position
  \<open>L - 2\<close> of every window.
\<close>

theorem gather_logits_positional_rule:
  assumes "list_all (\<lambda>w. length w = L) logits"
  shows "(batch_num = 0 \<and> 1 < length logits \<and> 2 \<le> L \<longrightarrow>
            gather_logits batch_num logits =
              Inr (map (\<lambda>p. logits ! 0 ! p) [0..<L - 1]
                   @ map (\<lambda>i. logits ! i ! (L - 2)) [1..<length logits]))
         \<and> (batch_num = 0 \<and> length logits = 1 \<longrightarrow>
            gather_logits batch_num logits = Inr (map (\<lambda>p. logits ! 0 ! p) [0..<L - 1]))
         \<and> (0 < batch_num \<and> 2 \<le> L \<longrightarrow>
            gather_logits batch_num logits =
              Inr (map (\<lambda>i. logits ! i ! (L - 2)) [0..<length logits]))"
proof (intro conjI impI)
  assume a: "batch_num = 0 \<and> 1 < length logits \<and> 2 \<le> L"
  then obtain w rest where l: "logits = w # rest" by (cases logits) auto
  have w: "length w = L" and rest: "list_all (\<lambda>w. length w = L) rest"
    using assms l by simp_all
  have "second_to_last (tl logits) = Inr (map (\<lambda>w. w ! (L - 2)) (tl logits))"
    using rest a l by (simp add: second_to_last_ok)
  also have "map (\<lambda>w. w ! (L - 2)) (tl logits) = map (\<lambda>i. logits ! i ! (L - 2)) [1..<length logits]"
    by (rule map_tl_positions)
  finally have s: "second_to_last (tl logits)
                     = Inr (map (\<lambda>i. logits ! i ! (L - 2)) [1..<length logits])" .
  have f: "first_all_but_last logits = Inr (map (\<lambda>p. logits ! 0 ! p) [0..<L - 1])"
    using butlast_positions [of w] by (simp add: first_all_but_last_def l w)
  show "gather_logits batch_num logits =
          Inr (map (\<lambda>p. logits ! 0 ! p) [0..<L - 1]
               @ map (\<lambda>i. logits ! i ! (L - 2)) [1..<length logits])"
    using a by (simp add: gather_logits_def f s)
next
  assume a: "batch_num = 0 \<and> length logits = 1"
  then obtain w where l: "logits = [w]" by (cases logits) auto
  have w: "length w = L" using assms l by simp
  show "gather_logits batch_num logits = Inr (map (\<lambda>p. logits ! 0 ! p) [0..<L - 1])"
    using a butlast_positions [of w] by (simp add: gather_logits_def first_all_but_last_def l w)
next
  assume a: "0 < batch_num \<and> 2 \<le> L"
  have "second_to_last logits = Inr (map (\<lambda>w. w ! (L - 2)) logits)"
    using assms a by (simp add: second_to_last_ok)
  also have "map (\<lambda>w. w ! (L - 2)) logits = map (\<lambda>i. logits ! i ! (L - 2)) [0..<length logits]"
    by (rule map_positions)
  finally show "gather_logits batch_num logits =
                  Inr (map (\<lambda>i. logits ! i ! (L - 2)) [0..<length logits])"
    using a by (simp add: gather_logits_def)
qed

theorem gather_logits_positional_rule_witness:
  "list_all (\<lambda>w. length w = 3) [[1::nat, 2, 3], [4, 5, 6]]
   \<and> gather_logits 0 [[1::nat, 2, 3], [4, 5, 6]] = Inr [1, 2, 5]
   \<and> list_all (\<lambda>w. length w = 3) [[1::nat, 2, 3]]
   \<and> gather_logits 0 [[1::nat, 2, 3]] = Inr [1, 2]
   \<and> gather_logits 1 [[1::nat, 2, 3], [4, 5, 6]] = Inr [2, 5]"
  using gather_logits_positional_rule [of 3 "[[1::nat, 2, 3], [4, 5, 6]]" 0]
        gather_logits_positional_rule [of 3 "[[1::nat, 2, 3]]" 0]
        gather_logits_positional_rule [of 3 "[[1::nat, 2, 3], [4, 5, 6]]" 1]
  by (simp add: upt_rec)

subsection \<open>Root-token tagging\<close>

text \<open>
  C8 (as amended). \<open>check_token_is_root\<close> raises exactly when the embedding type is
  neither \<open>gpt2\<close> nor \<open>bert\<close>, and then with the message
  \<open>embedding type doesn't exist\<close>; for those two types it returns the table.
\<close>

theorem check_token_is_root_raises_iff:
  "((\<exists>e. check_token_is_root tk et df = Inl e) = (et \<noteq> ''gpt2'' \<and> et \<noteq> ''bert''))
   \<and> ((\<exists>rows. check_token_is_root tk et df = Inr rows \<and> length rows = length df)
        = (et = ''gpt2'' \<or> et = ''bert''))"
  by (auto simp: check_token_is_root_def)

text \<open>
  The model selector accepts \<open>roberta\<close> and \<open>bart\<close>, but the tagging has no rule
  for them and raises.
\<close>

theorem check_token_is_root_roberta_counterexample:
  "select_tokenizer_and_model 1024 (ex_args\<lparr>embedding_type := ''roberta''\<rparr>)
     = Inr (ex_args\<lparr>embedding_type := ''roberta''\<rparr>)
   \<and> check_token_is_root ex_tokenizer ''roberta''
        [((\<lparr>word = str ''the'', conversation_id = 1, other_fields = ()\<rparr>, Some (50::nat)),
          str ''the'', 1)]
     = Inl (Exception ''embedding type doesn't exist'')
   \<and> select_tokenizer_and_model 1024 (ex_args\<lparr>embedding_type := ''bart''\<rparr>)
     = Inr (ex_args\<lparr>embedding_type := ''bart''\<rparr>)
   \<and> check_token_is_root ex_tokenizer ''bart''
        [((\<lparr>word = str ''the'', conversation_id = 1, other_fields = ()\<rparr>, Some (50::nat)),
          str ''the'', 1)]
     = Inl (Exception ''embedding type doesn't exist'')"
  by (simp add: select_tokenizer_and_model_def check_token_is_root_def ex_args_def)

subsection \<open>Start-up checks\<close>

lemma main_stops_at_setup:
  "setup_environ env a1 = Inl e \<Longrightarrow>
     select_tokenizer_and_model (max_len_single_sentence env) a0 = Inr a1 \<Longrightarrow>
     main env lm tk ops glove a0 = (0, Inl e)"
  by (simp add: main_def)

lemma select_keeps_subject:
  "select_tokenizer_and_model m a = Inr a1 \<Longrightarrow> subject a1 = subject a"
  by (auto simp: select_tokenizer_and_model_def split: if_splits)

lemma select_fails_with_exit:
  "select_tokenizer_and_model m a = Inl e \<Longrightarrow> e = SystemExit 1"
  by (auto simp: select_tokenizer_and_model_def split: if_splits)

text \<open>
  C7. \<open>setup_environ\<close> raises \<open>AssertionError\<close> exactly when the number of entries
  of the conversation directory is not 54 for subject \<open>625\<close>, or not 79 for any other
  subject. With such a count \<open>main\<close> ends in an exception (the assertion, or the exit
  of the model selector before it) after zero forward passes of the model.
\<close>

theorem setup_environ_conversation_count:
  "((setup_environ env a = Inl AssertionError)
      = (length (listing env) \<noteq> (if subject a = ''625'' then 54 else 79)))
   \<and> (length (listing env) \<noteq> (if subject a = ''625'' then 54 else 79) \<longrightarrow>
        main env lm tk ops glove a = (0, Inl AssertionError)
        \<or> main env lm tk ops glove a = (0, Inl (SystemExit 1)))"
proof -
  have iff: "(setup_environ env b = Inl AssertionError)
               = (length (listing env) \<noteq> (if subject b = ''625'' then 54 else 79))" for b
    by (auto simp: setup_environ_def Let_def py_index_def split: sum.splits if_splits)
  have "main env lm tk ops glove a = (0, Inl AssertionError)
        \<or> main env lm tk ops glove a = (0, Inl (SystemExit 1))"
    if n: "length (listing env) \<noteq> (if subject a = ''625'' then 54 else 79)"
  proof (cases "select_tokenizer_and_model (max_len_single_sentence env) a")
    case (Inl e)
    then show ?thesis using select_fails_with_exit [OF Inl] by (simp add: main_def)
  next
    case (Inr a1)
    have "subject a1 = subject a" using Inr by (rule select_keeps_subject)
    then have "setup_environ env a1 = Inl AssertionError"
      using n iff [of a1] by simp
    then show ?thesis using Inr by (simp add: main_stops_at_setup)
  qed
  then show ?thesis using iff [of a] by blast
qed

theorem setup_environ_conversation_count_witness:
  "length (listing ex_environ) \<noteq> (if subject ex_args = ''625'' then 54 else 79)
   \<and> setup_environ ex_environ ex_args = Inl AssertionError
   \<and> main ex_environ ex_model ex_tokenizer ex_ops ex_glove ex_args = (0, Inl AssertionError)"
proof -
  have n: "length (listing ex_environ) \<noteq> (if subject ex_args = ''625'' then 54 else 79)"
    by (simp add: ex_environ_def ex_args_def)
  have s: "select_tokenizer_and_model (max_len_single_sentence ex_environ) ex_args = Inr ex_args"
    by (simp add: select_tokenizer_and_model_def ex_args_def)
  have se: "setup_environ ex_environ ex_args = Inl AssertionError"
    using n setup_environ_conversation_count
            [of ex_environ ex_args ex_model ex_tokenizer ex_ops ex_glove]
    by simp
  have "main ex_environ ex_model ex_tokenizer ex_ops ex_glove ex_args = (0, Inl AssertionError)"
    using se s by (rule main_stops_at_setup)
  then show ?thesis using n se by simp
qed

subsection \<open>Tokenise and explode\<close>

lemma sequence_all_Inr: "sequence (map (\<lambda>x. Inr (f x)) xs) = Inr (map f xs)"
  by (induction xs) simp_all

lemma get_vector_total: "get_vector x glove = Inr (glove x)"
  by (simp add: get_vector_def glove_get_vector_def split: option.split)

lemma add_glove_embeddings_50:
  "add_glove_embeddings glove df 50 = Inr (map (\<lambda>r. (r, glove (word r))) df)"
  by (simp add: add_glove_embeddings_def get_vector_total sequence_all_Inr)

lemma explode_nonempty:
  "\<forall>x\<in>set xs. ts x \<noteq> [] \<Longrightarrow>
     explode (map (\<lambda>x. (f x, ts x)) xs) = concat (map (\<lambda>x. map (\<lambda>t. (f x, Some t)) (ts x)) xs)"
  by (induction xs) (simp_all add: explode_def)

lemma remove_punctuation_concat:
  "remove_punctuation (concat (map (\<lambda>x. map (\<lambda>t. (f x, Some t)) (ts x)) xs))
     = concat (map (\<lambda>x. map (\<lambda>t. (f x, Some t))
                              (filter (\<lambda>t. \<not> is_punctuation (Some t)) (ts x))) xs)"
  by (induction xs) (simp_all add: remove_punctuation_def filter_map comp_def)

lemma convert_token_to_idx_present:
  "convert_token_to_idx tk (concat (map (\<lambda>x. map (\<lambda>t. (f x, Some t)) (ts x)) xs))
     = Inr (concat (map (\<lambda>x. map (\<lambda>t. (f x, t, convert_tokens_to_ids tk t)) (ts x)) xs))"
proof -
  let ?ps = "concat (map (\<lambda>x. map (\<lambda>t. (f x, t)) (ts x)) xs)"
  have a: "concat (map (\<lambda>x. map (\<lambda>t. (f x, Some t)) (ts x)) xs)
             = map (\<lambda>(r, t). (r, Some t)) ?ps"
    by (simp add: map_concat comp_def)
  have b: "map (\<lambda>(r, t). (r, t, convert_tokens_to_ids tk t)) ?ps
             = concat (map (\<lambda>x. map (\<lambda>t. (f x, t, convert_tokens_to_ids tk t)) (ts x)) xs)"
    by (simp add: map_concat comp_def)
  have c: "convert_token_to_idx tk (map (\<lambda>(r, t). (r, Some t)) ps)
             = Inr (map (\<lambda>(r, t). (r, t, convert_tokens_to_ids tk t)) ps)"
    for ps
    using sequence_all_Inr [of "\<lambda>(r, t). (r, t, convert_tokens_to_ids tk t)" ps]
    by (simp add: convert_token_to_idx_def comp_def case_prod_unfold)
  show ?thesis using c [of ?ps] unfolding a b .
qed

lemma convert_token_to_idx_missing:
  "(x, None) \<in> set df \<Longrightarrow> convert_token_to_idx tk df = Inl TypeError"
proof (induction df)
  case Nil
  then show ?case by simp
next
  case (Cons a df)
  obtain r t where a: "a = (r, t)" by (cases a)
  show ?case
  proof (cases t)
    case None
    then show ?thesis by (simp add: convert_token_to_idx_def a)
  next
    case (Some tok)
    then have "(x, None) \<in> set df" using Cons.prems a by auto
    then have "convert_token_to_idx tk df = Inl TypeError" by (rule Cons.IH)
    then show ?thesis using Some by (simp add: convert_token_to_idx_def a)
  qed
qed

lemma explode_keeps_missing:
  "r \<in> set xs \<Longrightarrow> ts r = [] \<Longrightarrow>
     (f r, None) \<in> set (remove_punctuation (explode (map (\<lambda>x. (f x, ts x)) xs)))"
  by (auto simp: explode_def remove_punctuation_def is_punctuation_def)

text \<open>
  C5 (as amended). The call returns a table exactly when the tokenizer gives every
  word of the input at least one token and the embedding type has a tagging rule.
  The table is then the concatenation, word by word in table order, of one row per
  token of the word that is not a punctuation mark, in the tokenizer's order; each
  row carries the word row unchanged together with the word's GloVe entry, the
  token, its id and its root flag. A word of \<open>k\<close> tokens thus has \<open>k\<close> rows less one
  for each punctuation token. If some word of the input has no token the call raises
  \<open>TypeError\<close>; otherwise, with any other embedding type, it raises the exception of
  the tagging.
\<close>

theorem tokenize_and_explode_rows:
  "((\<forall>r\<in>set df. tokenize tk (word r) \<noteq> []) \<and> (et = ''gpt2'' \<or> et = ''bert'') \<longrightarrow>
      tokenize_and_explode tk glove et df =
        Inr (concat (map (\<lambda>r.
               map (\<lambda>t. \<lparr>wrow = r, glove50_embeddings = glove (word r), token = t,
                          token_id = convert_tokens_to_ids tk t,
                          token_is_root =
                            (if et = ''gpt2''
                             then word r = strip (convert_tokens_to_string tk t)
                             else word r = t)\<rparr>)
                   (filter (\<lambda>t. \<not> is_punctuation (Some t)) (tokenize tk (word r)))) df)))
   \<and> ((\<exists>r\<in>set df. tokenize tk (word r) = []) \<longrightarrow>
        tokenize_and_explode tk glove et df = Inl TypeError)
   \<and> ((\<forall>r\<in>set df. tokenize tk (word r) \<noteq> []) \<and> et \<noteq> ''gpt2'' \<and> et \<noteq> ''bert'' \<longrightarrow>
        tokenize_and_explode tk glove et df = Inl (Exception ''embedding type doesn't exist''))"
proof -
  let ?kept = "\<lambda>r. filter (\<lambda>t. \<not> is_punctuation (Some t)) (tokenize tk (word r))"
  let ?g = "\<lambda>r. (r, glove (word r))"
  have tok: "map (\<lambda>(r, g). ((r, g), tokenize tk (word r))) (map ?g df)
               = map (\<lambda>r. (?g r, tokenize tk (word r))) df"
    by simp
  have rp: "remove_punctuation (concat (map (\<lambda>r. map (\<lambda>t. (?g r, Some t)) (tokenize tk (word r))) df))
              = concat (map (\<lambda>r. map (\<lambda>t. (?g r, Some t)) (?kept r)) df)"
    by (rule remove_punctuation_concat)
  have ci: "convert_token_to_idx tk (concat (map (\<lambda>r. map (\<lambda>t. (?g r, Some t)) (?kept r)) df))
              = Inr (concat (map (\<lambda>r. map (\<lambda>t. (?g r, t, convert_tokens_to_ids tk t)) (?kept r)) df))"
    by (rule convert_token_to_idx_present)
  have stages: "tokenize_and_explode tk glove et df
                  = check_token_is_root tk et
                      (concat (map (\<lambda>r. map (\<lambda>t. (?g r, t, convert_tokens_to_ids tk t)) (?kept r)) df))"
    if all: "\<forall>r\<in>set df. tokenize tk (word r) \<noteq> []"
  proof -
    have ex: "explode (map (\<lambda>r. (?g r, tokenize tk (word r))) df)
                = concat (map (\<lambda>r. map (\<lambda>t. (?g r, Some t)) (tokenize tk (word r))) df)"
      using all by (rule explode_nonempty)
    show ?thesis
      unfolding tokenize_and_explode_def add_glove_embeddings_50 sum.case Let_def tok ex rp ci
      by simp
  qed
  have rows: "tokenize_and_explode tk glove et df =
        Inr (concat (map (\<lambda>r.
               map (\<lambda>t. \<lparr>wrow = r, glove50_embeddings = glove (word r), token = t,
                          token_id = convert_tokens_to_ids tk t,
                          token_is_root =
                            (if et = ''gpt2''
                             then word r = strip (convert_tokens_to_string tk t)
                             else word r = t)\<rparr>)
                   (?kept r)) df))"
    if "\<forall>r\<in>set df. tokenize tk (word r) \<noteq> []" and "et = ''gpt2'' \<or> et = ''bert''"
    unfolding stages [OF that(1)] using that(2)
    by (auto simp: check_token_is_root_def map_concat comp_def)
  have missing: "tokenize_and_explode tk glove et df = Inl TypeError"
    if m: "\<exists>r\<in>set df. tokenize tk (word r) = []"
  proof -
    obtain r where r: "r \<in> set df" and e: "tokenize tk (word r) = []" using m by blast
    have "(?g r, None)
            \<in> set (remove_punctuation (explode (map (\<lambda>r. (?g r, tokenize tk (word r))) df)))"
      using r e by (rule explode_keeps_missing)
    then have "convert_token_to_idx tk
                 (remove_punctuation (explode (map (\<lambda>r. (?g r, tokenize tk (word r))) df)))
               = Inl TypeError"
      by (rule convert_token_to_idx_missing)
    then show ?thesis
      unfolding tokenize_and_explode_def add_glove_embeddings_50 sum.case Let_def tok
      by simp
  qed
  have other: "tokenize_and_explode tk glove et df = Inl (Exception ''embedding type doesn't exist'')"
    if "\<forall>r\<in>set df. tokenize tk (word r) \<noteq> []" and "et \<noteq> ''gpt2''" and "et \<noteq> ''bert''"
    unfolding stages [OF that(1)] using that(2,3)
    by (simp add: check_token_is_root_def)
  from rows missing other show ?thesis by blast
qed

theorem tokenize_and_explode_rows_witness:
  "tokenize ex_tokenizer (str ''hi,'') = [str ''hi'', str '','']
   \<and> tokenize ex_tokenizer (str ''the'') = [str ''the'']
   \<and> tokenize_and_explode ex_tokenizer ex_glove ''gpt2''
        [\<lparr>word = str ''hi,'', conversation_id = 1, other_fields = ()\<rparr>,
         \<lparr>word = str ''the'', conversation_id = 1, other_fields = ()\<rparr>]
      = Inr [\<lparr>wrow = \<lparr>word = str ''hi,'', conversation_id = 1, other_fields = ()\<rparr>,
              glove50_embeddings = None, token = str ''hi'', token_id = 0,
              token_is_root = False\<rparr>,
             \<lparr>wrow = \<lparr>word = str ''the'', conversation_id = 1, other_fields = ()\<rparr>,
              glove50_embeddings = Some 50, token = str ''the'', token_id = 1,
              token_is_root = True\<rparr>]
   \<and> tokenize (ex_tokenizer\<lparr>tokenize := (\<lambda>w. if w = str ''the'' then [] else [w])\<rparr>)
        (str ''the'') = []
   \<and> tokenize_and_explode
        (ex_tokenizer\<lparr>tokenize := (\<lambda>w. if w = str ''the'' then [] else [w])\<rparr>) ex_glove ''gpt2''
        [\<lparr>word = str ''cat'', conversation_id = 1, other_fields = ()\<rparr>,
         \<lparr>word = str ''the'', conversation_id = 1, other_fields = ()\<rparr>]
      = Inl TypeError
   \<and> tokenize_and_explode ex_tokenizer ex_glove ''roberta''
        [\<lparr>word = str ''the'', conversation_id = 1, other_fields = ()\<rparr>]
      = Inl (Exception ''embedding type doesn't exist'')"
  using tokenize_and_explode_rows
          [where df = "[\<lparr>word = str ''hi,'', conversation_id = 1, other_fields = ()\<rparr>,
                        \<lparr>word = str ''the'', conversation_id = 1, other_fields = ()\<rparr>]"
             and tk = ex_tokenizer and et = "''gpt2''" and glove = ex_glove]
        tokenize_and_explode_rows
          [where df = "[\<lparr>word = str ''cat'', conversation_id = 1, other_fields = ()\<rparr>,
                        \<lparr>word = str ''the'', conversation_id = 1, other_fields = ()\<rparr>]"
             and tk = "ex_tokenizer\<lparr>tokenize := (\<lambda>w. if w = str ''the'' then [] else [w])\<rparr>"
             and et = "''gpt2''" and glove = ex_glove]
        tokenize_and_explode_rows
          [where df = "[\<lparr>word = str ''the'', conversation_id = 1, other_fields = ()\<rparr>]"
             and tk = ex_tokenizer and et = "''roberta''" and glove = ex_glove]
  by (simp add: ex_tokenizer_def ex_glove_def is_punctuation_def punctuation_def strip_def
        is_space_def str_def)

text \<open>
  The example tokenizer splits \<open>hi,\<close> into two tokens, the second a comma; the table
  has one row for the word, not two.
\<close>

theorem tokenize_and_explode_punctuation_counterexample:
  "length (tokenize ex_tokenizer (str ''hi,'')) = 2
   \<and> tokenize_and_explode ex_tokenizer ex_glove ''gpt2''
        [\<lparr>word = str ''hi,'', conversation_id = 1, other_fields = ()\<rparr>]
      = Inr [\<lparr>wrow = \<lparr>word = str ''hi,'', conversation_id = 1, other_fields = ()\<rparr>,
              glove50_embeddings = None, token = str ''hi'', token_id = 0,
              token_is_root = False\<rparr>]"
  by (simp add: tokenize_and_explode_def add_glove_embeddings_def get_vector_def
        glove_get_vector_def explode_def remove_punctuation_def is_punctuation_def
        punctuation_def convert_token_to_idx_def check_token_is_root_def strip_def
        is_space_def ex_tokenizer_def ex_glove_def str_def)

subsection \<open>Prediction scoring\<close>

text \<open>
  C6. When the gathered logits have at least one row and the scorer returns, each of
  the three lists it returns is non-empty and ends in \<open>None\<close>; the lists of top-1 words
  and top-1 probabilities have one entry per logit row followed by that \<open>None\<close>, so
  the \<open>None\<close> stands at the conversation's last token position.
\<close>

theorem prediction_lists_end_with_none:
  assumes "get_correct_prediction_probability tk ops concat_logits sentence_token_ids
             = Inr (top1_words, top1_probabilities, true_y_probability)"
    and "concat concat_logits \<noteq> []"
  shows "top1_words \<noteq> [] \<and> last top1_words = None
         \<and> top1_probabilities \<noteq> [] \<and> last top1_probabilities = None
         \<and> true_y_probability \<noteq> [] \<and> last true_y_probability = None
         \<and> length top1_words = length (concat concat_logits) + 1
         \<and> length top1_probabilities = length (concat concat_logits) + 1"
  using assms
  by (auto simp: get_correct_prediction_probability_def Let_def
           split: if_splits sum.splits)

theorem prediction_lists_end_with_none_witness:
  "get_correct_prediction_probability ex_tokenizer ex_ops [[([1, 2], 0)]] [[1, 2]]
     = Inr ([Some (str ''the''), None], [Some (([1, 2], 0), 1), None], [Some (([1, 2], 0), 2), None])
   \<and> concat [[([1::int, 2], 0::nat)]] \<noteq> []
   \<and> last [Some (str ''the''), None] = None
   \<and> last [Some (([1::int, 2], 0::nat), 1::int), None] = None
   \<and> last [Some (([1::int, 2], 0::nat), 2::int), None] = None"
proof -
  have r: "get_correct_prediction_probability ex_tokenizer ex_ops [[([1, 2], 0)]] [[1, 2]]
     = Inr ([Some (str ''the''), None], [Some (([1, 2], 0), 1), None], [Some (([1, 2], 0), 2), None])"
    by (simp add: get_correct_prediction_probability_def true_y_of_def first_tail_def
          ex_tokenizer_def ex_ops_def)
  have c: "concat [[([1::int, 2], 0::nat)]] \<noteq> []" by simp
  show ?thesis
    using prediction_lists_end_with_none [OF r c] r by simp
qed

subsection \<open>One conversation through the model\<close>

lemma window_slices:
  assumes "0 < n" and "int n \<le> sys_maxsize"
  shows "window seq (int n) = Inr (map (\<lambda>i. take n (drop i seq)) [0..<length seq - n + 1])"
proof (cases "n \<le> length seq")
  case True
  with assms show ?thesis by (simp add: window_eq)
next
  case False
  then show ?thesis using assms by (simp add: window_def Let_def)
qed

lemma butlast_map_upt: "butlast (map f [0..<n]) = map f [0..<n - 1]"
proof -
  have "butlast [0..<n] = [0..<n - 1]" by (cases n) simp_all
  then show ?thesis by (simp add: map_butlast [symmetric])
qed

lemma gather_later:
  assumes "0 < bn" and "list_all (\<lambda>w. 2 \<le> length w) batch"
  shows "gather_logits bn (map (\<lambda>w. map (f w) [0..<length w]) batch)
           = Inr (map (\<lambda>w. f w (length w - 2)) batch)"
  using assms
  by (auto simp: gather_logits_def second_to_last_def list_all_iff comp_def)

lemma gather_first_single:
  "gather_logits 0 [map (f w) [0..<length w]] = Inr (map (f w) [0..<length w - 1])"
  by (simp add: gather_logits_def first_all_but_last_def butlast_map_upt)

lemma gather_first_pair:
  assumes "2 \<le> length w1"
  shows "gather_logits 0 [map (f w0) [0..<length w0], map (f w1) [0..<length w1]]
           = Inr (map (f w0) [0..<length w0 - 1] @ [f w1 (length w1 - 2)])"
  using assms
  by (simp add: gather_logits_def first_all_but_last_def second_to_last_def
        butlast_map_upt)

lemma run_batches_later:
  assumes "0 < bn" and "list_all (\<lambda>w. 2 \<le> length w) ws"
  shows "\<exists>k X Y. run_batches lm bn (data_loader ws) co cl = (k, Inr (co @ X, cl @ Y))
           \<and> concat X = map (\<lambda>w. hidden_state lm w (length w - 2)) ws
           \<and> concat Y = map (\<lambda>w. logit lm w (length w - 2)) ws"
  using assms
proof (induction ws arbitrary: bn co cl rule: data_loader.induct)
  case 1
  show ?case by (intro exI [of _ 0] exI [of _ "[]"]) simp
next
  case (2 x)
  have h: "gather_logits bn (model_hidden_states lm [x]) = Inr [hidden_state lm x (length x - 2)]"
    using gather_later [of bn "[x]" "hidden_state lm"] 2 by (simp add: model_hidden_states_def)
  have l: "gather_logits bn (model_logits lm [x]) = Inr [logit lm x (length x - 2)]"
    using gather_later [of bn "[x]" "logit lm"] 2 by (simp add: model_logits_def)
  show ?case
    by (intro exI [of _ 1] exI [of _ "[[hidden_state lm x (length x - 2)]]"]
              exI [of _ "[[logit lm x (length x - 2)]]"])
       (simp add: h l)
next
  case (3 x y xs)
  let ?hx = "[hidden_state lm x (length x - 2), hidden_state lm y (length y - 2)]"
  let ?lx = "[logit lm x (length x - 2), logit lm y (length y - 2)]"
  have h: "gather_logits bn (model_hidden_states lm [x, y]) = Inr ?hx"
    using gather_later [of bn "[x, y]" "hidden_state lm"] 3 by (simp add: model_hidden_states_def)
  have l: "gather_logits bn (model_logits lm [x, y]) = Inr ?lx"
    using gather_later [of bn "[x, y]" "logit lm"] 3 by (simp add: model_logits_def)
  have "list_all (\<lambda>w. 2 \<le> length w) xs" using 3 by simp
  then obtain k X Y where
    r: "run_batches lm (Suc bn) (data_loader xs) (co @ [?hx]) (cl @ [?lx])
          = (k, Inr ((co @ [?hx]) @ X, (cl @ [?lx]) @ Y))"
    and X: "concat X = map (\<lambda>w. hidden_state lm w (length w - 2)) xs"
    and Y: "concat Y = map (\<lambda>w. logit lm w (length w - 2)) xs"
    using "3.IH" [of "Suc bn" "co @ [?hx]" "cl @ [?lx]"] by auto
  show ?case
    by (intro exI [of _ "Suc k"] exI [of _ "?hx # X"] exI [of _ "?lx # Y"])
       (simp add: h l r X Y)
qed

lemma run_batches_first:
  assumes "list_all (\<lambda>w. 2 \<le> length w) rest"
  shows "\<exists>k co cl. run_batches lm 0 (data_loader (w0 # rest)) [] [] = (k, Inr (co, cl))
           \<and> co \<noteq> [] \<and> cl \<noteq> []
           \<and> concat co = map (hidden_state lm w0) [0..<length w0 - 1]
                          @ map (\<lambda>w. hidden_state lm w (length w - 2)) rest
           \<and> concat cl = map (logit lm w0) [0..<length w0 - 1]
                          @ map (\<lambda>w. logit lm w (length w - 2)) rest"
proof (cases rest)
  case Nil
  have h: "gather_logits 0 (model_hidden_states lm [w0])
             = Inr (map (hidden_state lm w0) [0..<length w0 - 1])"
    using gather_first_single [of "hidden_state lm" w0] by (simp add: model_hidden_states_def)
  have l: "gather_logits 0 (model_logits lm [w0]) = Inr (map (logit lm w0) [0..<length w0 - 1])"
    using gather_first_single [of "logit lm" w0] by (simp add: model_logits_def)
  show ?thesis by (simp add: Nil h l)
next
  case (Cons w1 rest')
  let ?hx = "map (hidden_state lm w0) [0..<length w0 - 1] @ [hidden_state lm w1 (length w1 - 2)]"
  let ?lx = "map (logit lm w0) [0..<length w0 - 1] @ [logit lm w1 (length w1 - 2)]"
  have w1: "2 \<le> length w1" and rest': "list_all (\<lambda>w. 2 \<le> length w) rest'"
    using assms Cons by simp_all
  have h: "gather_logits 0 (model_hidden_states lm [w0, w1]) = Inr ?hx"
    using gather_first_pair [OF w1, of "hidden_state lm" w0] by (simp add: model_hidden_states_def)
  have l: "gather_logits 0 (model_logits lm [w0, w1]) = Inr ?lx"
    using gather_first_pair [OF w1, of "logit lm" w0] by (simp add: model_logits_def)
  obtain k X Y where
    r: "run_batches lm (Suc 0) (data_loader rest') ([] @ [?hx]) ([] @ [?lx])
          = (k, Inr (([] @ [?hx]) @ X, ([] @ [?lx]) @ Y))"
    and X: "concat X = map (\<lambda>w. hidden_state lm w (length w - 2)) rest'"
    and Y: "concat Y = map (\<lambda>w. logit lm w (length w - 2)) rest'"
    using run_batches_later [of "Suc 0" rest' lm "[] @ [?hx]" "[] @ [?lx]"] rest' by auto
  show ?thesis using r by (simp add: Cons h l X Y)
qed

lemma true_y_of_ok:
  assumes rect: "list_all (\<lambda>w. length w = L) (w0 # rest)"
    and L: "2 \<le> L"
    and R: "R = (L - 1) + length rest"
  shows "\<exists>ty. true_y_of R (w0 # rest) = Inr ty \<and> length ty = R"
proof (cases "R = 1")
  case True
  have "length w0 = L" using rect by simp
  then have "length (tl w0) = R" using True R L by simp
  then show ?thesis using True by (simp add: true_y_of_def first_tail_def)
next
  case False
  have w0: "length w0 = L" and r: "list_all (\<lambda>w. length w = L) rest"
    using rect by simp_all
  have t: "torch_tensor (w0 # rest) = Inr (w0 # rest)"
    using r w0 by (simp add: torch_tensor_def)
  have "list_all (\<lambda>w. 1 \<le> length w) rest"
    using r L by (auto simp: list_all_iff)
  then have rl: "rest_last (w0 # rest) = Inr (map last rest)"
    by (simp add: rest_last_def)
  have "length (tl w0 @ map last rest) = R" using w0 R by simp
  then show ?thesis
    using False by (simp add: true_y_of_def t first_tail_def rl)
qed

lemma scorer_returns:
  assumes cl: "cl \<noteq> []"
    and rect: "list_all (\<lambda>w. length w = L) (w0 # rest)"
    and L: "2 \<le> L"
    and R: "length (concat cl) = (L - 1) + length rest"
  shows "\<exists>tw tp ty. get_correct_prediction_probability tk ops cl (w0 # rest) = Inr (tw, tp, ty)
           \<and> length tw = length (concat cl) + 1
           \<and> length tp = length (concat cl) + 1
           \<and> length ty = length (concat cl) + 1"
proof -
  obtain ty where ty: "true_y_of (length (concat cl)) (w0 # rest) = Inr ty"
    and lty: "length ty = length (concat cl)"
    using true_y_of_ok [OF rect L R] by auto
  have pos: "length (concat cl) \<noteq> 0" using R L by simp
  show ?thesis
    using cl pos lty
    by (simp add: get_correct_prediction_probability_def Let_def ty)
qed

lemma windows_shape:
  assumes "0 < n" and "i < length seq - n + 1"
  shows "length (take n (drop i seq)) = min (length seq) n"
  using assms by (cases "n \<le> length seq") auto

lemma process_conversation_result:
  assumes n: "2 \<le> n" and N: "2 \<le> length token_list" and mx: "int n \<le> sys_maxsize"
  shows "\<exists>k tw tp ty.
           process_conversation lm tk ops (int n) token_list =
             (k, Inr (NaN_row # map Hidden
                        (map (hidden_state lm (take n token_list))
                             [0..<min (length token_list) n - 1]
                         @ map (\<lambda>i. hidden_state lm (take n (drop i token_list)) (n - 2))
                               [1..<length token_list - n + 1]),
                      tw, tp, ty))
           \<and> length tw = length token_list
           \<and> length tp = length token_list
           \<and> length ty = length token_list"
proof -
  let ?N = "length token_list"
  let ?L = "min ?N n"
  let ?w0 = "take n token_list"
  define idx where "idx = [1..<?N - n + 1]"
  define rest where "rest = map (\<lambda>i. take n (drop i token_list)) idx"
  have n0: "0 < n" using n by simp
  have idx: "i < ?N - n + 1" if "i \<in> set idx" for i
    using that by (simp add: idx_def del: upt_Suc)
  have lidx: "length idx = ?N - n" by (simp add: idx_def del: upt_Suc)
  have "[0..<?N - n + 1] = 0 # idx"
    using upt_conv_Cons [of 0 "?N - n + 1"] by (simp add: idx_def del: upt_Suc)
  then have ws: "map (\<lambda>i. take n (drop i token_list)) [0..<?N - n + 1] = ?w0 # rest"
    by (simp add: rest_def)
  have win: "window token_list (int n) = Inr (?w0 # rest)"
    using window_slices [OF n0 mx, of token_list] by (simp only: ws)
  have w0: "length ?w0 = ?L" by simp
  have restL: "list_all (\<lambda>w. length w = ?L) rest"
    using windows_shape [OF n0 idx] by (simp add: rest_def list_all_iff)
  have rect: "list_all (\<lambda>w. length w = ?L) (?w0 # rest)"
    using restL by simp
  have L2: "2 \<le> ?L" using n N by simp
  have tt: "torch_tensor (?w0 # rest) = Inr (?w0 # rest)"
    using restL by (simp add: torch_tensor_def)
  have rest2: "list_all (\<lambda>w. 2 \<le> length w) rest"
    using restL L2 by (simp add: list_all_iff)
  obtain k co cl where
    run: "run_batches lm 0 (data_loader (?w0 # rest)) [] [] = (k, Inr (co, cl))"
    and co: "co \<noteq> []" and cl: "cl \<noteq> []"
    and cco: "concat co = map (hidden_state lm ?w0) [0..<length ?w0 - 1]
                          @ map (\<lambda>w. hidden_state lm w (length w - 2)) rest"
    and ccl: "concat cl = map (logit lm ?w0) [0..<length ?w0 - 1]
                          @ map (\<lambda>w. logit lm w (length w - 2)) rest"
    using run_batches_first [OF rest2, of lm ?w0] by blast
  have restn: "?L = n" if "i \<in> set idx" for i
  proof -
    have "1 \<le> i \<and> i < ?N - n + 1" using that by (simp add: idx_def del: upt_Suc)
    then show ?thesis by arith
  qed
  have "map (\<lambda>w. hidden_state lm w (length w - 2)) rest
          = map (\<lambda>i. hidden_state lm (take n (drop i token_list)) (n - 2)) idx"
    unfolding rest_def map_map comp_def
  proof (rule map_cong [OF refl])
    fix i assume i: "i \<in> set idx"
    have "length (take n (drop i token_list)) = n"
      using windows_shape [OF n0 idx [OF i]] restn [OF i] by simp
    then show "hidden_state lm (take n (drop i token_list)) (length (take n (drop i token_list)) - 2)
                 = hidden_state lm (take n (drop i token_list)) (n - 2)"
      by (simp only:)
  qed
  then have cco': "concat co = map (hidden_state lm ?w0) [0..<?L - 1]
                     @ map (\<lambda>i. hidden_state lm (take n (drop i token_list)) (n - 2)) idx"
    using cco by (simp only: w0)
  have lenrest: "length rest = ?N - n" by (simp add: rest_def lidx)
  have total: "(?L - 1) + length rest = ?N - 1" using n N lenrest by auto
  have lco: "length (concat co) = ?N - 1" using total lenrest by (simp add: cco' lidx)
  have lcl: "length (concat cl) = (?L - 1) + length rest" by (simp add: ccl)
  have ext: "extract_token_embeddings_new co = Inr (NaN_row # map Hidden (concat co))"
    using co by (simp add: extract_token_embeddings_new_def)
  obtain tw tp ty where
    sc: "get_correct_prediction_probability tk ops cl (?w0 # rest) = Inr (tw, tp, ty)"
    and ltw: "length tw = length (concat cl) + 1"
    and ltp: "length tp = length (concat cl) + 1"
    and lty: "length ty = length (concat cl) + 1"
    using scorer_returns [OF cl rect L2 lcl, of tk ops] by blast
  have lens: "length (concat cl) + 1 = ?N" using lcl total N by simp
  have "process_conversation lm tk ops (int n) token_list
          = (k, Inr (NaN_row # map Hidden (concat co), tw, tp, ty))"
    using lco N by (simp add: process_conversation_def win tt run ext sc)
  then show ?thesis
    using ltw ltp lty lens unfolding cco' idx_def by auto
qed

text \<open>
  C4 (as amended). For a context length of at least two and at most
  \<open>sys.maxsize\<close>, and a conversation of at least two tokens, the conversation is
  processed without an exception and the
  embeddings have exactly one row per token: row \<open>0\<close> is the row of NaNs, and row
  \<open>j + 1\<close> is the hidden state read at the position that holds token \<open>j\<close> (position
  \<open>p\<close> of the window that starts at token \<open>i\<close>, with \<open>i + p = j\<close>), so the rows
  follow the order of the tokens.
\<close>

theorem embeddings_one_row_per_token:
  assumes n: "2 \<le> n" and N: "2 \<le> length token_list" and mx: "int n \<le> sys_maxsize"
  shows "\<exists>k emb tw tp ty.
           process_conversation lm tk ops (int n) token_list = (k, Inr (emb, tw, tp, ty))
           \<and> length emb = length token_list
           \<and> emb ! 0 = NaN_row
           \<and> (\<forall>j. Suc j < length token_list \<longrightarrow>
                 (\<exists>i p. i + p = j
                    \<and> p < length (take n (drop i token_list))
                    \<and> emb ! Suc j
                        = Hidden (hidden_state lm (take n (drop i token_list)) p)))"
proof -
  let ?N = "length token_list"
  let ?L = "min ?N n"
  define A where "A = map (hidden_state lm (take n token_list)) [0..<?L - 1]"
  define B where "B = map (\<lambda>i. hidden_state lm (take n (drop i token_list)) (n - 2))
                          [1..<?N - n + 1]"
  obtain k tw tp ty where
    r: "process_conversation lm tk ops (int n) token_list
          = (k, Inr (NaN_row # map Hidden (A @ B), tw, tp, ty))"
    using process_conversation_result [OF n N mx, of lm tk ops] unfolding A_def B_def by blast
  have lA: "length A = ?L - 1" by (simp add: A_def)
  have lB: "length B = ?N - n" by (simp add: B_def del: upt_Suc)
  have nthA: "A ! j = hidden_state lm (take n token_list) j" if "j < ?L - 1" for j
    using that by (simp add: A_def)
  have nthB: "B ! m = hidden_state lm (take n (drop (1 + m) token_list)) (n - 2)"
    if "m < ?N - n" for m
    unfolding B_def
    using nth_map_upt [of m "?N - n + 1" 1
            "\<lambda>i. hidden_state lm (take n (drop i token_list)) (n - 2)"] that
    by simp
  have len: "length (NaN_row # map Hidden (A @ B)) = ?N"
    using n N by (simp add: lA lB)
  have rows: "\<exists>i p. i + p = j \<and> p < length (take n (drop i token_list))
                \<and> (NaN_row # map Hidden (A @ B)) ! Suc j
                    = Hidden (hidden_state lm (take n (drop i token_list)) p)"
    if j: "Suc j < ?N" for j
  proof -
    have jl: "j < length (A @ B)" using j n N by (simp add: lA lB)
    have row: "(NaN_row # map Hidden (A @ B)) ! Suc j = Hidden ((A @ B) ! j)"
      using jl by (simp del: map_append)
    show ?thesis
    proof (cases "j < ?L - 1")
      case True
      have "(A @ B) ! j = hidden_state lm (take n (drop 0 token_list)) j"
        using True by (simp add: nth_append lA nthA)
      then have e: "(NaN_row # map Hidden (A @ B)) ! Suc j
                      = Hidden (hidden_state lm (take n (drop 0 token_list)) j)"
        by (simp only: row)
      have "j < ?N \<and> j < n" using True by arith
      then have p: "j < length (take n (drop 0 token_list))" by simp
      have s: "0 + j = j" by simp
      from s p e show ?thesis by blast
    next
      case False
      have Ln: "?L = n" using False j by arith
      let ?m = "j - (n - 1)"
      have m: "?m < ?N - n" using False j Ln n by arith
      have "(A @ B) ! j = B ! ?m" using False Ln by (simp add: nth_append lA)
      also have "\<dots> = hidden_state lm (take n (drop (1 + ?m) token_list)) (n - 2)"
        using m by (rule nthB)
      finally have "(A @ B) ! j
                      = hidden_state lm (take n (drop (1 + ?m) token_list)) (n - 2)" .
      then have e: "(NaN_row # map Hidden (A @ B)) ! Suc j
                      = Hidden (hidden_state lm (take n (drop (1 + ?m) token_list)) (n - 2))"
        by (simp only: row)
      have s: "(1 + ?m) + (n - 2) = j" using False Ln n by arith
      have p: "n - 2 < length (take n (drop (1 + ?m) token_list))" using m n by simp
      from s p e show ?thesis by blast
    qed
  qed
  have z: "(NaN_row # map Hidden (A @ B)) ! 0 = NaN_row" by simp
  from r len z rows show ?thesis by blast
qed

theorem embeddings_one_row_per_token_witness:
  "2 \<le> (3::nat) \<and> 2 \<le> length [11::int, 12, 13, 14, 15, 16] \<and> int 3 \<le> sys_maxsize
   \<and> fst (snd (projr (snd (process_conversation ex_model ex_tokenizer ex_ops 3
                               [11, 12, 13, 14, 15, 16]))))
      = [Some (str ''the''), Some (str ''the''), Some (str ''the''), Some (str ''the''), Some (str ''the''), None]
   \<and> fst (projr (snd (process_conversation ex_model ex_tokenizer ex_ops 3
                         [11, 12, 13, 14, 15, 16])))
      = [NaN_row, Hidden ([11, 12, 13], 0), Hidden ([11, 12, 13], 1),
         Hidden ([12, 13, 14], 1), Hidden ([13, 14, 15], 1), Hidden ([14, 15, 16], 1)]"
proof -
  have v: "process_conversation ex_model ex_tokenizer ex_ops 3 [11, 12, 13, 14, 15, 16]
     = (2, Inr ([NaN_row, Hidden ([11, 12, 13], 0), Hidden ([11, 12, 13], 1),
                 Hidden ([12, 13, 14], 1), Hidden ([13, 14, 15], 1), Hidden ([14, 15, 16], 1)],
                [Some (str ''the''), Some (str ''the''), Some (str ''the''), Some (str ''the''), Some (str ''the''), None],
                [Some (([11, 12, 13], 0), 1), Some (([11, 12, 13], 1), 1),
                 Some (([12, 13, 14], 1), 1), Some (([13, 14, 15], 1), 1),
                 Some (([14, 15, 16], 1), 1), None],
                [Some (([11, 12, 13], 0), 12), Some (([11, 12, 13], 1), 13),
                 Some (([12, 13, 14], 1), 14), Some (([13, 14, 15], 1), 15),
                 Some (([14, 15, 16], 1), 16), None]))"
    by (simp add: process_conversation_def window_def torch_tensor_def gather_logits_def
          first_all_but_last_def second_to_last_def model_hidden_states_def model_logits_def
          extract_token_embeddings_new_def get_correct_prediction_probability_def
          true_y_of_def first_tail_def rest_last_def ex_model_def ex_ops_def ex_tokenizer_def
          sys_maxsize_def upt_rec)
  have mx: "int 3 \<le> sys_maxsize" by (simp add: sys_maxsize_def)
  obtain k emb tw tp ty where
    "process_conversation ex_model ex_tokenizer ex_ops (int 3) [11, 12, 13, 14, 15, 16]
       = (k, Inr (emb, tw, tp, ty))" and "length emb = length [11::int, 12, 13, 14, 15, 16]"
    using embeddings_one_row_per_token
            [of 3 "[11, 12, 13, 14, 15, 16]" ex_model ex_tokenizer ex_ops] mx
    by auto
  then show ?thesis using v mx by simp
qed

text \<open>
  With context length one every window has a single position, and the gather of the
  first batch reads position \<open>-2\<close>: two tokens give no embedding rows but an
  \<open>IndexError\<close>, after one forward pass. With a context length above \<open>sys.maxsize\<close>
  the windowing itself raises \<open>ValueError\<close>, before any forward pass.
\<close>

theorem embeddings_context_one_counterexample:
  "process_conversation ex_model ex_tokenizer ex_ops 1 [11, 12] = (1, Inl IndexError)
   \<and> process_conversation ex_model ex_tokenizer ex_ops (sys_maxsize + 1) [11, 12]
       = (0, Inl ValueError)"
  by (simp add: process_conversation_def window_def torch_tensor_def gather_logits_def
        first_all_but_last_def second_to_last_def model_hidden_states_def model_logits_def
        sys_maxsize_def)

subsection \<open>The output table of the two-word example\<close>

text \<open>
  C2. The words \<open>the\<close> and \<open>cat\<close>, one token each, with context length two give one
  window and a table of two rows. The embedding of the first row is the row of NaNs,
  but its three prediction columns hold values: the scorer puts its \<open>None\<close> after the
  values, so the placeholder is in the last row and the first row carries the
  probability the model gives to the second token.
\<close>

theorem two_word_example_table:
  "generate_embeddings_with_context ex_model ex_tokenizer ex_ops ex_glove ex_args
     [\<lparr>word = str ''the'', conversation_id = 1, other_fields = ()\<rparr>,
      \<lparr>word = str ''cat'', conversation_id = 1, other_fields = ()\<rparr>]
   = (1, Inr [\<lparr>trow = \<lparr>wrow = \<lparr>word = str ''the'', conversation_id = 1, other_fields = ()\<rparr>,
                         glove50_embeddings = Some 50, token = str ''the'', token_id = 1,
                         token_is_root = True\<rparr>,
                embeddings = NaN_row,
                top1_pred = Some (str ''the''),
                top1_pred_prob = Some (([1, 2], 0), 1),
                true_pred_prob = Some (([1, 2], 0), 2)\<rparr>,
               \<lparr>trow = \<lparr>wrow = \<lparr>word = str ''cat'', conversation_id = 1, other_fields = ()\<rparr>,
                         glove50_embeddings = None, token = str ''cat'', token_id = 2,
                         token_is_root = True\<rparr>,
                embeddings = Hidden ([1, 2], 0),
                top1_pred = None,
                top1_pred_prob = None,
                true_pred_prob = None\<rparr>])"
proof -
  have t: "tokenize_and_explode ex_tokenizer ex_glove ''gpt2''
             [\<lparr>word = str ''the'', conversation_id = 1, other_fields = ()\<rparr>,
              \<lparr>word = str ''cat'', conversation_id = 1, other_fields = ()\<rparr>]
           = Inr [\<lparr>wrow = \<lparr>word = str ''the'', conversation_id = 1, other_fields = ()\<rparr>,
                   glove50_embeddings = Some 50, token = str ''the'', token_id = 1,
                   token_is_root = True\<rparr>,
                  \<lparr>wrow = \<lparr>word = str ''cat'', conversation_id = 1, other_fields = ()\<rparr>,
                   glove50_embeddings = None, token = str ''cat'', token_id = 2,
                   token_is_root = True\<rparr>]"
    by (simp add: tokenize_and_explode_def add_glove_embeddings_def get_vector_def
          glove_get_vector_def explode_def remove_punctuation_def is_punctuation_def
          punctuation_def convert_token_to_idx_def check_token_is_root_def strip_def
          is_space_def ex_tokenizer_def ex_glove_def str_def)
  have p: "process_conversation ex_model ex_tokenizer ex_ops 2 [1, 2]
           = (1, Inr ([NaN_row, Hidden ([1, 2], 0)], [Some (str ''the''), None],
                      [Some (([1, 2], 0), 1), None], [Some (([1, 2], 0), 2), None]))"
    by (simp add: process_conversation_def window_def torch_tensor_def gather_logits_def
          first_all_but_last_def model_hidden_states_def model_logits_def
          extract_token_embeddings_new_def get_correct_prediction_probability_def
          true_y_of_def first_tail_def ex_model_def ex_ops_def ex_tokenizer_def
          sys_maxsize_def)
  show ?thesis
    by (simp add: generate_embeddings_with_context_def ex_args_def t unique_def p)
qed

end
